theory Spec2Isabelle
  imports Main "HOL-Library.AList"
begin

section \<open>Python values, objects and the store\<close>

text \<open>
  The module \<^verbatim>\<open>landscape/lib/amp.py\<close> exposes the methods of a local object over AMP.
  Its functions work on arbitrary Python objects, so the embedding starts with a small
  universe of Python values. Immutable values are modelled by their contents; lists,
  dictionaries and class instances are objects with an identity (an address), whose
  contents live in the store. A bound method or any other callable is a value
  \<open>PFun f\<close>; what calling it does is given by a table of method bodies.
  Floating point numbers are not represented: no function of the module computes with
  them, and the claims do not depend on them.
\<close>

type_synonym addr = nat

datatype pyval =
    PNone
  | PBool bool
  | PInt int
  | PStr string
  | PTuple "pyval list"
  | PList addr
  | PDict addr
  | PObj addr
  | PFun string

text \<open>The result of Python's \<^verbatim>\<open>type(v)\<close>, as far as the module looks at it.\<close>

datatype pytype =
  NoneType | BoolT | IntT | FloatT | StrT | TupleT | ListT | DictT | InstanceT | FunctionT

fun py_type :: "pyval \<Rightarrow> pytype" where
  "py_type PNone = NoneType"
| "py_type (PBool b) = BoolT"
| "py_type (PInt i) = IntT"
| "py_type (PStr s) = StrT"
| "py_type (PTuple xs) = TupleT"
| "py_type (PList a) = ListT"
| "py_type (PDict a) = DictT"
| "py_type (PObj a) = InstanceT"
| "py_type (PFun f) = FunctionT"

text \<open>
  Exceptions are values. \<open>MethodCallError\<close> is the class declared by the module; the
  others are the built-in exceptions its statements can raise, and \<open>Failure\<close> stands for
  any other exception a method body raises.
\<close>

datatype exn =
    MethodCallError string
  | AttributeError string
  | TypeError string
  | KeyError string
  | Failure string

text \<open>
  The store: the attribute namespace of every object (what \<^verbatim>\<open>getattr\<close> finds, class
  attributes and methods included), the contents of the list objects and of the
  dictionary objects (string keys, in iteration order), and the allocation pointer:
  every address below \<open>next_addr\<close> is in use, a new object gets the address \<open>next_addr\<close>.
\<close>

record store =
  attrs :: "pyval \<Rightarrow> string \<rightharpoonup> pyval"
  lists :: "addr \<Rightarrow> pyval list"
  dicts :: "addr \<Rightarrow> (string \<times> pyval) list"
  next_addr :: addr

text \<open>
  What a function does to other objects is recorded as a list of events: every
  attribute lookup, every call of a callable, every command handed to the connection.
\<close>

datatype event =
    GetAttr pyval string
  | Invoke pyval "pyval list" "(string \<times> pyval) list"
  | CallRemote pyval string "pyval list" addr

fun is_GetAttr :: "event \<Rightarrow> bool" where
  "is_GetAttr (GetAttr ob name) = True"
| "is_GetAttr _ = False"

text \<open>
  A method body receives the positional arguments and the keyword arguments it is
  called with; it may change the store, and it returns a value or raises.
\<close>

type_synonym method_body =
  "pyval list \<Rightarrow> (string \<times> pyval) list \<Rightarrow> store \<Rightarrow> (exn + pyval) \<times> store"

subsection \<open>Built-in operations\<close>

text \<open>\<^verbatim>\<open>getattr(ob, name)\<close>: the attribute, or \<^verbatim>\<open>AttributeError\<close>.\<close>

definition py_getattr :: "store \<Rightarrow> pyval \<Rightarrow> string \<Rightarrow> (exn + pyval) \<times> event list" where
  "py_getattr st ob name =
     ((case attrs st ob name of
         None \<Rightarrow> Inl (AttributeError name)
       | Some v \<Rightarrow> Inr v),
      [GetAttr ob name])"

text \<open>\<^verbatim>\<open>[]\<close> and \<^verbatim>\<open>{}\<close>: a new, empty object at a fresh address.\<close>

definition new_list :: "store \<Rightarrow> addr \<times> store" where
  "new_list st =
     (next_addr st,
      st\<lparr>lists := (lists st)(next_addr st := []), next_addr := Suc (next_addr st)\<rparr>)"

definition new_dict :: "store \<Rightarrow> addr \<times> store" where
  "new_dict st =
     (next_addr st,
      st\<lparr>dicts := (dicts st)(next_addr st := []), next_addr := Suc (next_addr st)\<rparr>)"

text \<open>\<^verbatim>\<open>l.extend(xs)\<close>, \<^verbatim>\<open>d[k] = v\<close>, \<^verbatim>\<open>d.update(other)\<close> and \<^verbatim>\<open>d.copy()\<close>.\<close>

definition list_extend :: "addr \<Rightarrow> pyval list \<Rightarrow> store \<Rightarrow> store" where
  "list_extend l xs st = st\<lparr>lists := (lists st)(l := lists st l @ xs)\<rparr>"

definition dict_setitem :: "addr \<Rightarrow> string \<Rightarrow> pyval \<Rightarrow> store \<Rightarrow> store" where
  "dict_setitem d k v st = st\<lparr>dicts := (dicts st)(d := AList.update k v (dicts st d))\<rparr>"

fun dict_update :: "addr \<Rightarrow> (string \<times> pyval) list \<Rightarrow> store \<Rightarrow> store" where
  "dict_update d [] st = st"
| "dict_update d ((k, v) # other) st = dict_update d other (dict_setitem d k v st)"

definition dict_copy :: "addr \<Rightarrow> store \<Rightarrow> addr \<times> store" where
  "dict_copy d st =
     (next_addr st,
      st\<lparr>dicts := (dicts st)(next_addr st := dicts st d), next_addr := Suc (next_addr st)\<rparr>)"

text \<open>\<^verbatim>\<open>d[k]\<close> on the contents of a dictionary: the value, or \<^verbatim>\<open>KeyError\<close>.\<close>

definition dict_getitem :: "(string \<times> pyval) list \<Rightarrow> string \<Rightarrow> exn + pyval" where
  "dict_getitem d k = (case map_of d k of None \<Rightarrow> Inl (KeyError k) | Some v \<Rightarrow> Inr v)"

text \<open>
  \<^verbatim>\<open>s.split(sep)\<close> for a separator of one character: the scan keeps the piece read so
  far and closes it at every separator, so a string without separator gives one piece
  and the empty string gives \<^verbatim>\<open>['']\<close>.
\<close>

fun split_scan :: "char \<Rightarrow> string \<Rightarrow> string \<Rightarrow> string list" where
  "split_scan sep piece [] = [piece]"
| "split_scan sep piece (c # cs) =
     (if c = sep then piece # split_scan sep [] cs
      else split_scan sep (piece @ [c]) cs)"

definition str_split :: "char \<Rightarrow> string \<Rightarrow> string list" where
  "str_split sep s = split_scan sep [] s"

text \<open>\<^verbatim>\<open>sep.join(pieces)\<close>, used to say what \<open>str_split\<close> computes.\<close>

fun str_join :: "char \<Rightarrow> string list \<Rightarrow> string" where
  "str_join sep [] = []"
| "str_join sep [p] = p"
| "str_join sep (p # q # ps) = p @ sep # str_join sep (q # ps)"

text \<open>
  Calling a value: a callable runs its body on the arguments, anything else raises
  \<^verbatim>\<open>TypeError\<close> without running anything.
\<close>

definition py_call ::
  "(string \<Rightarrow> method_body) \<Rightarrow> pyval \<Rightarrow> pyval list \<Rightarrow> (string \<times> pyval) list \<Rightarrow> store
     \<Rightarrow> (exn + pyval) \<times> store \<times> event list" where
  "py_call code f a k st =
     (case f of
        PFun fid \<Rightarrow> (case code fid a k st of (r, st') \<Rightarrow> (r, st', [Invoke f a k]))
      | _ \<Rightarrow> (Inl (TypeError ''object is not callable''), st, []))"

section \<open>The module\<close>

subsection \<open>\<^verbatim>\<open>Method\<close>, \<^verbatim>\<open>MethodCallArgument.check\<close>\<close>

text \<open>
  \<^verbatim>\<open>Method(name, **kwargs)\<close>: the name of an exposed method and the extra keyword
  arguments, each bound to the path of a protocol attribute.
\<close>

record Method =
  Method_name :: string
  Method_kwargs :: "(string \<times> string) list"

text \<open>
  \<^verbatim>\<open>MethodCallArgument.check\<close>: \<^verbatim>\<open>type(inObject) in dumps_table\<close>. The table belongs to
  \<^verbatim>\<open>landscape.lib.bpickle\<close>, which is not part of the module, so it is a parameter: the
  list of its keys.
\<close>

definition check :: "pytype list \<Rightarrow> pyval \<Rightarrow> bool" where
  "check dumps_table inObject = (py_type inObject \<in> set dumps_table)"

subsection \<open>\<^verbatim>\<open>get_nested_attr\<close>\<close>

text \<open>
  The loop \<^verbatim>\<open>for name in path.split(".")[:]: attr = getattr(attr, name)\<close>: the
  variable \<^verbatim>\<open>attr\<close> is the first argument, and an exception leaves the loop.
\<close>

fun getattr_loop :: "store \<Rightarrow> pyval \<Rightarrow> string list \<Rightarrow> (exn + pyval) \<times> event list" where
  "getattr_loop st attr [] = (Inr attr, [])"
| "getattr_loop st attr (name # names) =
     (case py_getattr st attr name of
        (Inl e, evs) \<Rightarrow> (Inl e, evs)
      | (Inr v, evs) \<Rightarrow>
          (case getattr_loop st v names of (r, evs') \<Rightarrow> (r, evs @ evs')))"

definition get_nested_attr :: "store \<Rightarrow> pyval \<Rightarrow> string \<Rightarrow> (exn + pyval) \<times> event list" where
  "get_nested_attr st obj path =
     (if path \<noteq> '''' then getattr_loop st obj (str_split CHR ''.'' path)
      else (Inr obj, []))"

text \<open>
  The nested lookup as the specification words it: the path is split on the dot and
  \<^verbatim>\<open>getattr\<close> is applied successively, that is
  \<^verbatim>\<open>getattr(... getattr(getattr(obj, a), b) ..., z)\<close>. The outermost application is
  the last name, so the recursion runs over the names from the last to the first.
\<close>

fun getattr_nest :: "store \<Rightarrow> pyval \<Rightarrow> string list \<Rightarrow> (exn + pyval) \<times> event list" where
  "getattr_nest st obj [] = (Inr obj, [])"
| "getattr_nest st obj (z # inner) =
     (case getattr_nest st obj inner of
        (Inl e, evs) \<Rightarrow> (Inl e, evs)
      | (Inr v, evs) \<Rightarrow>
          (case py_getattr st v z of (r, evs') \<Rightarrow> (r, evs @ evs')))"

definition spec_nested_lookup :: "store \<Rightarrow> pyval \<Rightarrow> string list \<Rightarrow> (exn + pyval) \<times> event list" where
  "spec_nested_lookup st obj names = getattr_nest st obj (rev names)"

subsection \<open>\<^verbatim>\<open>MethodCallProtocol\<close> and its factory\<close>

text \<open>
  \<^verbatim>\<open>MethodCallServerFactory\<close> holds the exposed object. \<^verbatim>\<open>RemoteObject\<close> holds the
  protocol it sends commands with (the attribute \<^verbatim>\<open>_protocol\<close>). A protocol is an
  object of the store, \<open>self_value\<close>, against which the extra arguments are resolved
  by \<^verbatim>\<open>getattr\<close>; the attributes that the module reads by name are the fields of the
  record: \<^verbatim>\<open>remote\<close>, \<^verbatim>\<open>_methods_by_name\<close> and \<^verbatim>\<open>factory\<close>.
\<close>

record MethodCallServerFactory =
  object :: pyval

record RemoteObject =
  RemoteObject_protocol :: pyval

record MethodCallProtocol =
  self_value :: pyval
  remote :: RemoteObject
  methods_by_name :: "(string \<times> Method) list"
  factory :: MethodCallServerFactory

text \<open>
  \<^verbatim>\<open>MethodCallProtocol.__init__\<close>: the proxy is built on the protocol itself, and the
  table is filled from the declared methods, a later declaration of a name replacing
  an earlier one. The factory is set by whoever builds the protocol.
\<close>

definition MethodCallProtocol_init ::
  "pyval \<Rightarrow> Method list \<Rightarrow> MethodCallServerFactory \<Rightarrow> MethodCallProtocol" where
  "MethodCallProtocol_init self methods fac =
     \<lparr>self_value = self,
      remote = \<lparr>RemoteObject_protocol = self\<rparr>,
      methods_by_name =
        foldl (\<lambda>table method. AList.update (Method_name method) method table) [] methods,
      factory = fac\<rparr>"

subsection \<open>\<^verbatim>\<open>MethodCallProtocol._call_object_method\<close>\<close>

text \<open>
  Lines 156 and 157, the loop over \<^verbatim>\<open>method.kwargs.iteritems()\<close>: each path is
  resolved against the protocol and stored in \<^verbatim>\<open>method_kwargs\<close> under its key. An
  exception of \<open>get_nested_attr\<close> leaves the loop with the store as it is then.
\<close>

fun inject_extras ::
  "pyval \<Rightarrow> addr \<Rightarrow> (string \<times> string) list \<Rightarrow> store \<Rightarrow> (exn + unit) \<times> store \<times> event list" where
  "inject_extras self method_kwargs [] st = (Inr (), st, [])"
| "inject_extras self method_kwargs ((key, val) # rest) st =
     (case get_nested_attr st self val of
        (Inl e, evs) \<Rightarrow> (Inl e, st, evs)
      | (Inr v, evs) \<Rightarrow>
          (case inject_extras self method_kwargs rest (dict_setitem method_kwargs key v st) of
             (r, st', evs') \<Rightarrow> (r, st', evs @ evs')))"

text \<open>
  Lines 151 and 152, \<^verbatim>\<open>if args: method_args.extend(args)\<close>, and lines 153 and 154,
  \<^verbatim>\<open>if kwargs: method_kwargs.update(kwargs)\<close>. The command's \<^verbatim>\<open>args\<close> is \<open>None\<close> or the
  contents of a tuple, its \<^verbatim>\<open>kwargs\<close> is \<open>None\<close> or the address of a dictionary; a
  value is true when it is neither \<^verbatim>\<open>None\<close> nor empty.
\<close>

definition copy_args :: "addr \<Rightarrow> pyval list option \<Rightarrow> store \<Rightarrow> store" where
  "copy_args method_args args st =
     (case args of
        None \<Rightarrow> st
      | Some xs \<Rightarrow> if xs \<noteq> [] then list_extend method_args xs st else st)"

definition copy_kwargs :: "addr \<Rightarrow> addr option \<Rightarrow> store \<Rightarrow> store" where
  "copy_kwargs method_kwargs kwargs st =
     (case kwargs of
        None \<Rightarrow> st
      | Some d \<Rightarrow> if dicts st d \<noteq> [] then dict_update method_kwargs (dicts st d) st else st)"

text \<open>
  Lines 148 to 157: \<^verbatim>\<open>method_args\<close> and \<^verbatim>\<open>method_kwargs\<close> are new objects; the
  arguments of the command are copied into them, then the extra arguments of the
  method are injected. The result is the addresses of the two new objects.
\<close>

definition assemble_arguments ::
  "pyval \<Rightarrow> Method \<Rightarrow> pyval list option \<Rightarrow> addr option \<Rightarrow> store
     \<Rightarrow> (exn + addr \<times> addr) \<times> store \<times> event list" where
  "assemble_arguments self method args kwargs st =
     (case new_list st of (method_args, st1) \<Rightarrow>
      case new_dict st1 of (method_kwargs, st2) \<Rightarrow>
      let st3 = copy_args method_args args st2;
          st4 = copy_kwargs method_kwargs kwargs st3
      in if Method_kwargs method \<noteq> [] then
           (case inject_extras self method_kwargs (Method_kwargs method) st4 of
              (Inl e, st5, evs) \<Rightarrow> (Inl e, st5, evs)
            | (Inr u, st5, evs) \<Rightarrow> (Inr (method_args, method_kwargs), st5, evs))
         else (Inr (method_args, method_kwargs), st4, []))"

text \<open>The message of line 145: \<^verbatim>\<open>"Forbidden method '%s'" % name\<close>.\<close>

definition forbidden_message :: "string \<Rightarrow> string" where
  "forbidden_message name = ''Forbidden method '' @ [CHR 0x27] @ name @ [CHR 0x27]"

text \<open>
  The responder. The whitelist is looked up first; the method is then taken from the
  exposed object with \<^verbatim>\<open>getattr\<close>, the arguments are assembled, the method is called
  with \<^verbatim>\<open>*method_args\<close> and \<^verbatim>\<open>**method_kwargs\<close>, and its result is checked. The answer
  is the response \<^verbatim>\<open>{"result": result}\<close> or the exception raised, with the store and
  the events of the call.
\<close>

definition call_object_method ::
  "pytype list \<Rightarrow> (string \<Rightarrow> method_body) \<Rightarrow> MethodCallProtocol \<Rightarrow> string
     \<Rightarrow> pyval list option \<Rightarrow> addr option \<Rightarrow> store
     \<Rightarrow> (exn + (string \<times> pyval) list) \<times> store \<times> event list" where
  "call_object_method dumps_table code self name args kwargs st =
     (case map_of (methods_by_name self) name of
        None \<Rightarrow> (Inl (MethodCallError (forbidden_message name)), st, [])
      | Some method \<Rightarrow>
          (case py_getattr st (object (factory self)) name of
             (Inl e, evs1) \<Rightarrow> (Inl e, st, evs1)
           | (Inr method_func, evs1) \<Rightarrow>
               (case assemble_arguments (self_value self) method args kwargs st of
                  (Inl e, st1, evs2) \<Rightarrow> (Inl e, st1, evs1 @ evs2)
                | (Inr (method_args, method_kwargs), st1, evs2) \<Rightarrow>
                    (case py_call code method_func
                            (lists st1 method_args) (dicts st1 method_kwargs) st1 of
                       (Inl e, st2, evs3) \<Rightarrow> (Inl e, st2, evs1 @ evs2 @ evs3)
                     | (Inr result, st2, evs3) \<Rightarrow>
                         if \<not> check dumps_table result
                         then (Inl (MethodCallError ''Non-serializable result''), st2,
                               evs1 @ evs2 @ evs3)
                         else (Inr [(''result'', result)], st2, evs1 @ evs2 @ evs3)))))"

subsection \<open>\<^verbatim>\<open>RemoteObject\<close>\<close>

text \<open>
  Modelled from the spec: the Deferred returned by \<^verbatim>\<open>callRemote\<close> and the connection
  itself belong to Twisted, which is not part of the module. Following sections 4.4
  and 6 of the specification, a Deferred is a pending outcome, a response or a failure,
  with the callbacks added to it: \<open>fire\<close> gives what it resolves to once the connection
  delivers the outcome. A callback runs on success only, and a failure passes through
  (the module adds no errback). \<^verbatim>\<open>callRemote\<close> hands one command to the connection and
  returns its pending Deferred.
\<close>

datatype 'a deferred = Deferred "exn + (string \<times> pyval) list \<Rightarrow> exn + 'a"

fun addCallback :: "('a \<Rightarrow> exn + 'b) \<Rightarrow> 'a deferred \<Rightarrow> 'b deferred" where
  "addCallback f (Deferred k) =
     Deferred (\<lambda>outcome. case k outcome of Inl e \<Rightarrow> Inl e | Inr v \<Rightarrow> f v)"

fun fire :: "'a deferred \<Rightarrow> exn + (string \<times> pyval) list \<Rightarrow> exn + 'a" where
  "fire (Deferred k) outcome = k outcome"

definition callRemote ::
  "pyval \<Rightarrow> string \<Rightarrow> pyval list \<Rightarrow> addr \<Rightarrow> store
     \<Rightarrow> (string \<times> pyval) list deferred \<times> store \<times> event list" where
  "callRemote proto name args kwargs st =
     (Deferred (\<lambda>outcome. outcome), st, [CallRemote proto name args kwargs])"

text \<open>
  \<^verbatim>\<open>send_method_call\<close>, the function that \<^verbatim>\<open>_create_method_call_sender\<close> returns. The
  variables \<^verbatim>\<open>self\<close> and \<^verbatim>\<open>name\<close> of the enclosing call are its first two arguments;
  \<^verbatim>\<open>args\<close> is the tuple of the positional arguments, \<^verbatim>\<open>kwargs\<close> the dictionary of the
  keyword arguments. Slicing a tuple gives a tuple with the same items; \<^verbatim>\<open>copy\<close> makes
  a new dictionary.
\<close>

definition send_method_call ::
  "RemoteObject \<Rightarrow> string \<Rightarrow> pyval list \<Rightarrow> addr \<Rightarrow> store
     \<Rightarrow> pyval deferred \<times> store \<times> event list" where
  "send_method_call self name args kwargs st =
     (let method_call_name = name;
          method_call_args = args
      in case dict_copy kwargs st of (method_call_kwargs, st1) \<Rightarrow>
         case callRemote (RemoteObject_protocol self)
                method_call_name method_call_args method_call_kwargs st1 of
           (called, st2, evs) \<Rightarrow>
             (addCallback (\<lambda>response. dict_getitem response ''result'') called, st2, evs))"

definition create_method_call_sender ::
  "RemoteObject \<Rightarrow> string
     \<Rightarrow> (pyval list \<Rightarrow> addr \<Rightarrow> store \<Rightarrow> pyval deferred \<times> store \<times> event list)" where
  "create_method_call_sender self name = send_method_call self name"

text \<open>
  Attribute access on a proxy. Python calls \<^verbatim>\<open>__getattr__\<close> only for a name that the
  ordinary lookup does not find. The ordinary lookup finds \<^verbatim>\<open>_protocol\<close> in the
  instance, the property \<^verbatim>\<open>protocol\<close> and the other names of the class statement, and
  the names every new-style class inherits from \<^verbatim>\<open>object\<close>.
\<close>

definition RemoteObject_reserved :: "string list" where
  "RemoteObject_reserved =
     [''_protocol'', ''protocol'', ''__init__'', ''__getattr__'',
      ''_create_method_call_sender'', ''__module__'', ''__doc__'', ''__dict__'',
      ''__weakref__'', ''__class__'', ''__delattr__'', ''__format__'',
      ''__getattribute__'', ''__hash__'', ''__new__'', ''__reduce__'', ''__reduce_ex__'',
      ''__repr__'', ''__setattr__'', ''__sizeof__'', ''__str__'', ''__subclasshook__'']"

datatype proxy_attr =
    Value pyval
  | ClassAttr string
  | Sender "pyval list \<Rightarrow> addr \<Rightarrow> store \<Rightarrow> pyval deferred \<times> store \<times> event list"

definition RemoteObject_getattr_hook :: "RemoteObject \<Rightarrow> string \<Rightarrow> proxy_attr" where
  "RemoteObject_getattr_hook self name = Sender (create_method_call_sender self name)"

definition RemoteObject_getattribute :: "RemoteObject \<Rightarrow> string \<Rightarrow> proxy_attr" where
  "RemoteObject_getattribute self name =
     (if name = ''_protocol'' \<or> name = ''protocol'' then Value (RemoteObject_protocol self)
      else if name \<in> set RemoteObject_reserved then ClassAttr name
      else RemoteObject_getattr_hook self name)"

section \<open>A concrete protocol\<close>

text \<open>
  Modelled from the spec: the table \<^verbatim>\<open>dumps_table\<close> of \<^verbatim>\<open>landscape.lib.bpickle\<close> is not
  part of the module. Section 3 of the specification lists the types a value may have:
  null, boolean, integer, float, string, sequence and mapping.
\<close>

definition bpickle_dumps_table :: "pytype list" where
  "bpickle_dumps_table = [NoneType, BoolT, IntT, FloatT, StrT, TupleT, ListT, DictT]"

text \<open>
  The objects used to run the definitions: the protocol is the object 2, its factory
  the object 4, the exposed object the object 3. The exposed object has the methods
  \<^verbatim>\<open>add(a, b)\<close>, which returns the sum, \<^verbatim>\<open>whoami(caller_id)\<close>, which returns whether
  \<^verbatim>\<open>caller_id\<close> is the protocol, \<^verbatim>\<open>bad()\<close>, which returns an instance, and \<^verbatim>\<open>boom()\<close>,
  which raises; \<^verbatim>\<open>secret\<close> is a method that no protocol declares. The dictionary 5
  holds keyword arguments of a command.
\<close>

definition ex_code :: "string \<Rightarrow> method_body" where
  "ex_code fid a k st =
     (if fid = ''add'' then
        (case a of
           [PInt x, PInt y] \<Rightarrow> (Inr (PInt (x + y)), st)
         | _ \<Rightarrow> (Inl (TypeError ''add() takes two integers''), st))
      else if fid = ''whoami'' then
        (case map_of k ''caller_id'' of
           Some v \<Rightarrow> (Inr (PBool (v = PObj 2)), st)
         | None \<Rightarrow> (Inl (TypeError ''whoami() takes caller_id''), st))
      else if fid = ''bad'' then (Inr (PObj 7), st)
      else (Inl (Failure ''boom''), st))"

definition ex_attrs :: "pyval \<Rightarrow> string \<rightharpoonup> pyval" where
  "ex_attrs ob =
     (if ob = PObj 2 then map_of [(''factory'', PObj 4)]
      else if ob = PObj 4 then map_of [(''object'', PObj 3)]
      else if ob = PObj 3 then
        map_of [(''add'', PFun ''add''), (''whoami'', PFun ''whoami''),
                (''bad'', PFun ''bad''), (''boom'', PFun ''boom''),
                (''secret'', PFun ''secret'')]
      else Map.empty)"

definition ex_store :: store where
  "ex_store =
     \<lparr>attrs = ex_attrs,
      lists = (\<lambda>a. []),
      dicts = (\<lambda>a. if a = 5 then [(''caller_id'', PInt 99)] else []),
      next_addr = 10\<rparr>"

definition ex_methods :: "Method list" where
  "ex_methods =
     [\<lparr>Method_name = ''add'', Method_kwargs = []\<rparr>,
      \<lparr>Method_name = ''whoami'',
       Method_kwargs = [(''caller_id'', ''''), (''target'', ''factory.object'')]\<rparr>,
      \<lparr>Method_name = ''bad'', Method_kwargs = []\<rparr>,
      \<lparr>Method_name = ''boom'', Method_kwargs = []\<rparr>,
      \<lparr>Method_name = ''ghost'', Method_kwargs = []\<rparr>]"

definition ex_protocol :: MethodCallProtocol where
  "ex_protocol = MethodCallProtocol_init (PObj 2) ex_methods \<lparr>object = PObj 3\<rparr>"

section \<open>Properties of the built-in operations\<close>

lemma split_scan_nonempty: "split_scan sep piece s \<noteq> []"
  by (induction s arbitrary: piece) auto

lemma str_join_Cons: "ps \<noteq> [] \<Longrightarrow> str_join sep (p # ps) = p @ sep # str_join sep ps"
  by (cases ps) auto

lemma split_scan_join: "str_join sep (split_scan sep piece s) = piece @ s"
  by (induction s arbitrary: piece) (auto simp: str_join_Cons split_scan_nonempty)

text \<open>Joining the pieces of a split gives the string back, and no piece holds the separator.\<close>

lemma str_split_join: "str_join sep (str_split sep s) = s"
  by (simp add: str_split_def split_scan_join)

lemma split_scan_no_sep:
  "sep \<notin> set piece \<Longrightarrow> \<forall>p \<in> set (split_scan sep piece s). sep \<notin> set p"
proof (induction s arbitrary: piece)
  case Nil
  then show ?case by simp
next
  case (Cons c cs)
  have a: "\<forall>p \<in> set (split_scan sep [] cs). sep \<notin> set p"
    using Cons.IH [of "[]"] by simp
  have b: "c \<noteq> sep \<Longrightarrow> \<forall>p \<in> set (split_scan sep (piece @ [c]) cs). sep \<notin> set p"
    using Cons.IH [of "piece @ [c]"] Cons.prems by simp
  show ?case using a b Cons.prems by simp
qed

lemma str_split_no_sep: "p \<in> set (str_split sep s) \<Longrightarrow> sep \<notin> set p"
  unfolding str_split_def using split_scan_no_sep [of sep "[]" s] by simp

section \<open>The concrete protocol, evaluated\<close>

lemmas ex_defs = ex_store_def ex_attrs_def ex_protocol_def ex_methods_def ex_code_def
  MethodCallProtocol_init_def bpickle_dumps_table_def

lemma ex_whitelist:
  "map_of (methods_by_name ex_protocol) ''add'' =
     Some \<lparr>Method_name = ''add'', Method_kwargs = []\<rparr>"
  "map_of (methods_by_name ex_protocol) ''bad'' =
     Some \<lparr>Method_name = ''bad'', Method_kwargs = []\<rparr>"
  "map_of (methods_by_name ex_protocol) ''boom'' =
     Some \<lparr>Method_name = ''boom'', Method_kwargs = []\<rparr>"
  "map_of (methods_by_name ex_protocol) ''ghost'' =
     Some \<lparr>Method_name = ''ghost'', Method_kwargs = []\<rparr>"
  "map_of (methods_by_name ex_protocol) ''whoami'' =
     Some \<lparr>Method_name = ''whoami'',
           Method_kwargs = [(''caller_id'', ''''), (''target'', ''factory.object'')]\<rparr>"
  "self_value ex_protocol = PObj 2"
  "object (factory ex_protocol) = PObj 3"
  by (simp_all add: ex_defs)

lemma ex_getattr:
  "py_getattr ex_store (PObj 3) ''add'' = (Inr (PFun ''add''), [GetAttr (PObj 3) ''add''])"
  "py_getattr ex_store (PObj 3) ''bad'' = (Inr (PFun ''bad''), [GetAttr (PObj 3) ''bad''])"
  "py_getattr ex_store (PObj 3) ''boom'' = (Inr (PFun ''boom''), [GetAttr (PObj 3) ''boom''])"
  "py_getattr ex_store (PObj 3) ''whoami'' =
     (Inr (PFun ''whoami''), [GetAttr (PObj 3) ''whoami''])"
  by (simp_all add: py_getattr_def ex_store_def ex_attrs_def)

text \<open>No method body of the example changes the store.\<close>

lemma ex_code_frame: "snd (ex_code fid a k s) = s"
  by (simp add: ex_code_def split: list.splits pyval.splits option.splits)

section \<open>Nested attributes\<close>

lemma getattr_loop_snoc:
  "getattr_loop st obj (names @ [z]) =
     (case getattr_loop st obj names of
        (Inl e, evs) \<Rightarrow> (Inl e, evs)
      | (Inr v, evs) \<Rightarrow> (case py_getattr st v z of (r, evs') \<Rightarrow> (r, evs @ evs')))"
proof (induction names arbitrary: obj)
  case Nil
  show ?case by (simp add: py_getattr_def split: option.splits)
next
  case (Cons n ns)
  show ?case
    by (simp add: Cons.IH py_getattr_def split: option.splits prod.splits sum.splits)
qed

lemma getattr_loop_nest: "getattr_loop st obj names = getattr_nest st obj (rev names)"
proof (induction names rule: rev_induct)
  case Nil
  show ?case by simp
next
  case (snoc z names)
  show ?case by (simp add: getattr_loop_snoc snoc.IH)
qed

text \<open>
  C6. For every object, \<open>get_nested_attr\<close> with the empty path returns the object itself,
  without any lookup; for every non-empty path it is the nested lookup obtained by
  splitting the path on the dot and applying \<^verbatim>\<open>getattr\<close> successively, with the same
  value or the same exception and the same lookups.
\<close>

theorem get_nested_attr_paths:
  "get_nested_attr st obj '''' = (Inr obj, [])
   \<and> (path \<noteq> '''' \<longrightarrow>
        get_nested_attr st obj path = spec_nested_lookup st obj (str_split CHR ''.'' path))"
  by (simp add: get_nested_attr_def spec_nested_lookup_def getattr_loop_nest)

text \<open>
  On the example: the path \<^verbatim>\<open>factory.object\<close> leads from the protocol to the exposed
  object, a missing attribute raises \<^verbatim>\<open>AttributeError\<close> at the step that misses it, and
  the empty path gives the protocol.
\<close>

theorem get_nested_attr_paths_witness:
  "''factory.object'' \<noteq> ''''
   \<and> get_nested_attr ex_store (PObj 2) ''factory.object'' =
       spec_nested_lookup ex_store (PObj 2) [''factory'', ''object'']
   \<and> get_nested_attr ex_store (PObj 2) ''factory.object'' =
       (Inr (PObj 3), [GetAttr (PObj 2) ''factory'', GetAttr (PObj 4) ''object''])
   \<and> get_nested_attr ex_store (PObj 2) ''factory.missing'' =
       (Inl (AttributeError ''missing''),
        [GetAttr (PObj 2) ''factory'', GetAttr (PObj 4) ''missing''])
   \<and> get_nested_attr ex_store (PObj 2) '''' = (Inr (PObj 2), [])"
  using get_nested_attr_paths [of ex_store "PObj 2" "''factory.object''"]
  by (simp add: get_nested_attr_def str_split_def py_getattr_def ex_store_def ex_attrs_def)

text \<open>
  A lookup reads the attribute namespaces only, it records only lookups, and the only
  exception it raises is \<^verbatim>\<open>AttributeError\<close>.
\<close>

lemma getattr_loop_attrs:
  "attrs st' = attrs st \<Longrightarrow> getattr_loop st' ob names = getattr_loop st ob names"
  by (induction names arbitrary: ob) (simp_all add: py_getattr_def split: option.splits)

lemma get_nested_attr_attrs:
  "attrs st' = attrs st \<Longrightarrow> get_nested_attr st' ob path = get_nested_attr st ob path"
  using getattr_loop_attrs [of st' st ob] by (simp add: get_nested_attr_def)

lemma getattr_loop_events:
  "getattr_loop st ob names = (r, evs) \<Longrightarrow> \<forall>e \<in> set evs. is_GetAttr e"
proof (induction names arbitrary: ob r evs)
  case Nil
  then show ?case by simp
next
  case (Cons n ns)
  show ?case
  proof (cases "attrs st ob n")
    case None
    with Cons.prems show ?thesis by (auto simp: py_getattr_def)
  next
    case (Some v)
    obtain r' evs' where g: "getattr_loop st v ns = (r', evs')"
      by (cases "getattr_loop st v ns")
    from Cons.IH [OF g] Cons.prems Some g show ?thesis
      by (auto simp: py_getattr_def)
  qed
qed

lemma get_nested_attr_events:
  "get_nested_attr st ob path = (r, evs) \<Longrightarrow> \<forall>e \<in> set evs. is_GetAttr e"
  using getattr_loop_events [of st ob "str_split CHR ''.'' path" r evs]
  by (auto simp: get_nested_attr_def split: if_splits)

lemma getattr_loop_error:
  "getattr_loop st ob names = (Inl e, evs) \<Longrightarrow> \<exists>n. e = AttributeError n"
proof (induction names arbitrary: ob evs)
  case Nil
  then show ?case by simp
next
  case (Cons n ns)
  show ?case
  proof (cases "attrs st ob n")
    case None
    with Cons.prems show ?thesis by (auto simp: py_getattr_def)
  next
    case (Some v)
    obtain r' evs' where g: "getattr_loop st v ns = (r', evs')"
      by (cases "getattr_loop st v ns")
    with Cons.prems Some have "r' = Inl e" by (auto simp: py_getattr_def)
    with Cons.IH g show ?thesis by blast
  qed
qed

lemma get_nested_attr_error:
  "get_nested_attr st ob path = (Inl e, evs) \<Longrightarrow> \<exists>n. e = AttributeError n"
  using getattr_loop_error [of st ob "str_split CHR ''.'' path" e evs]
  by (auto simp: get_nested_attr_def split: if_splits)

section \<open>The whitelist\<close>

text \<open>
  C1. For every command whose name is not a key of the table \<^verbatim>\<open>_methods_by_name\<close>, the
  responder raises \<open>MethodCallError\<close> with the message \<^verbatim>\<open>Forbidden method '<name>'\<close>. It
  leaves the store as it is and records no event: no attribute of the exposed object is
  looked up and nothing is called.
\<close>

theorem forbidden_method:
  assumes "name \<notin> fst ` set (methods_by_name self)"
  shows "call_object_method dumps_table code self name args kwargs st =
           (Inl (MethodCallError (''Forbidden method '' @ [CHR 0x27] @ name @ [CHR 0x27])),
            st, [])"
proof -
  from assms have "map_of (methods_by_name self) name = None"
    by (simp add: map_of_eq_None_iff)
  then show ?thesis
    by (simp add: call_object_method_def forbidden_message_def)
qed

text \<open>
  On the example: \<^verbatim>\<open>secret\<close> is a method of the exposed object, but no \<^verbatim>\<open>Method\<close>
  declares it.
\<close>

theorem forbidden_method_witness:
  "''secret'' \<notin> fst ` set (methods_by_name ex_protocol)
   \<and> attrs ex_store (object (factory ex_protocol)) ''secret'' = Some (PFun ''secret'')
   \<and> call_object_method bpickle_dumps_table ex_code ex_protocol ''secret'' (Some []) (Some 5)
        ex_store =
       (Inl (MethodCallError (''Forbidden method '' @ [CHR 0x27] @ ''secret'' @ [CHR 0x27])),
        ex_store, [])"
proof -
  have h: "''secret'' \<notin> fst ` set (methods_by_name ex_protocol)"
    by (simp add: ex_defs)
  show ?thesis
    using h forbidden_method [OF h, of bpickle_dumps_table ex_code "Some []" "Some 5" ex_store]
    by (simp add: ex_defs)
qed

text \<open>
  C10. A name of the table need not be callable: for every name that is in the table
  and is not an attribute of the exposed object, the responder raises the
  \<^verbatim>\<open>AttributeError\<close> of the lookup, which is not a \<open>MethodCallError\<close>, after that one
  lookup and with the store as it is.
\<close>

theorem whitelisted_missing_attribute:
  assumes "map_of (methods_by_name self) name = Some method"
    and "attrs st (object (factory self)) name = None"
  shows "call_object_method dumps_table code self name args kwargs st =
           (Inl (AttributeError name), st, [GetAttr (object (factory self)) name])
         \<and> (\<forall>msg. fst (call_object_method dumps_table code self name args kwargs st)
                      \<noteq> Inl (MethodCallError msg))"
  using assms by (simp add: call_object_method_def py_getattr_def)

text \<open>On the example: \<^verbatim>\<open>ghost\<close> is declared, and the exposed object has no such attribute.\<close>

theorem whitelisted_missing_attribute_witness:
  "map_of (methods_by_name ex_protocol) ''ghost'' =
     Some \<lparr>Method_name = ''ghost'', Method_kwargs = []\<rparr>
   \<and> attrs ex_store (object (factory ex_protocol)) ''ghost'' = None
   \<and> call_object_method bpickle_dumps_table ex_code ex_protocol ''ghost'' None None ex_store =
       (Inl (AttributeError ''ghost''), ex_store, [GetAttr (PObj 3) ''ghost''])"
proof -
  have h1: "map_of (methods_by_name ex_protocol) ''ghost'' =
              Some \<lparr>Method_name = ''ghost'', Method_kwargs = []\<rparr>"
    by (simp add: ex_whitelist)
  have h2: "attrs ex_store (object (factory ex_protocol)) ''ghost'' = None"
    by (simp add: ex_whitelist ex_store_def ex_attrs_def)
  show ?thesis
    using h1 h2
      whitelisted_missing_attribute [OF h1 h2, of bpickle_dumps_table ex_code None None]
    by (simp add: ex_whitelist)
qed

section \<open>The assembly of the arguments\<close>

text \<open>What each operation on the store leaves alone.\<close>

lemma dict_setitem_attrs [simp]: "attrs (dict_setitem d k v st) = attrs st"
  by (simp add: dict_setitem_def)

lemma dict_setitem_lists [simp]: "lists (dict_setitem d k v st) = lists st"
  by (simp add: dict_setitem_def)

lemma dict_setitem_next [simp]: "next_addr (dict_setitem d k v st) = next_addr st"
  by (simp add: dict_setitem_def)

lemma dict_setitem_other [simp]: "d' \<noteq> d \<Longrightarrow> dicts (dict_setitem d k v st) d' = dicts st d'"
  by (simp add: dict_setitem_def)

lemma dict_setitem_same [simp]:
  "dicts (dict_setitem d k v st) d = AList.update k v (dicts st d)"
  by (simp add: dict_setitem_def)

lemma dict_update_attrs [simp]: "attrs (dict_update d other st) = attrs st"
  by (induction d other st rule: dict_update.induct) simp_all

lemma dict_update_lists [simp]: "lists (dict_update d other st) = lists st"
  by (induction d other st rule: dict_update.induct) simp_all

lemma dict_update_next [simp]: "next_addr (dict_update d other st) = next_addr st"
  by (induction d other st rule: dict_update.induct) simp_all

lemma dict_update_other [simp]: "d' \<noteq> d \<Longrightarrow> dicts (dict_update d other st) d' = dicts st d'"
  by (induction d other st rule: dict_update.induct) simp_all

lemma copy_args_frame [simp]:
  "attrs (copy_args l args st) = attrs st"
  "dicts (copy_args l args st) = dicts st"
  "next_addr (copy_args l args st) = next_addr st"
  "l' \<noteq> l \<Longrightarrow> lists (copy_args l args st) l' = lists st l'"
  by (simp_all add: copy_args_def list_extend_def split: option.splits)

lemma copy_kwargs_frame [simp]:
  "attrs (copy_kwargs d kwargs st) = attrs st"
  "lists (copy_kwargs d kwargs st) = lists st"
  "next_addr (copy_kwargs d kwargs st) = next_addr st"
  "d' \<noteq> d \<Longrightarrow> dicts (copy_kwargs d kwargs st) d' = dicts st d'"
  by (simp_all add: copy_kwargs_def split: option.splits)

text \<open>
  The loop over the extra arguments writes to \<^verbatim>\<open>method_kwargs\<close> only, and there only
  under the keys of the extra arguments; it records only lookups.
\<close>

lemma inject_extras_frame:
  "inject_extras self mk extras st = (r, st', evs) \<Longrightarrow>
     attrs st' = attrs st \<and> lists st' = lists st \<and> next_addr st' = next_addr st
     \<and> (\<forall>d. d \<noteq> mk \<longrightarrow> dicts st' d = dicts st d)
     \<and> (\<forall>key. key \<notin> fst ` set extras \<longrightarrow>
           map_of (dicts st' mk) key = map_of (dicts st mk) key)
     \<and> (\<forall>e \<in> set evs. is_GetAttr e)"
proof (induction extras arbitrary: st r st' evs)
  case Nil
  then show ?case by simp
next
  case (Cons kp rest)
  obtain key0 path0 where kp: "kp = (key0, path0)" by (cases kp)
  obtain r0 evs0 where g: "get_nested_attr st self path0 = (r0, evs0)"
    by (cases "get_nested_attr st self path0")
  note ev0 = get_nested_attr_events [OF g]
  show ?case
  proof (cases r0)
    case (Inl e)
    with Cons.prems kp g ev0 show ?thesis by auto
  next
    case (Inr v)
    obtain r1 st1 evs1 where
      h: "inject_extras self mk rest (dict_setitem mk key0 v st) = (r1, st1, evs1)"
      by (cases "inject_extras self mk rest (dict_setitem mk key0 v st)")
    from Cons.prems kp g Inr h have eq: "r = r1" "st' = st1" "evs = evs0 @ evs1"
      by simp_all
    from Cons.IH [OF h] ev0 show ?thesis
      unfolding eq kp by (auto simp: update_conv')
  qed
qed

text \<open>
  When the loop ends without exception, every key of the extra arguments is bound to
  what its path resolves to.
\<close>

lemma inject_extras_binds:
  "inject_extras self mk extras st = (Inr u, st', evs) \<Longrightarrow>
   distinct (map fst extras) \<Longrightarrow> (key, path) \<in> set extras \<Longrightarrow>
     \<exists>v evs'. get_nested_attr st self path = (Inr v, evs')
              \<and> map_of (dicts st' mk) key = Some v"
proof (induction extras arbitrary: st st' evs)
  case Nil
  then show ?case by simp
next
  case (Cons kp rest)
  obtain key0 path0 where kp: "kp = (key0, path0)" by (cases kp)
  obtain r0 evs0 where g: "get_nested_attr st self path0 = (r0, evs0)"
    by (cases "get_nested_attr st self path0")
  from Cons.prems(1) kp g obtain v0 where r0: "r0 = Inr v0"
    by (cases r0) auto
  let ?st0 = "dict_setitem mk key0 v0 st"
  obtain r1 st1 evs1 where h: "inject_extras self mk rest ?st0 = (r1, st1, evs1)"
    by (cases "inject_extras self mk rest ?st0")
  from Cons.prems(1) kp g r0 h have eq: "r1 = Inr u" "st' = st1"
    by simp_all
  show ?case
  proof (cases "(key, path) = (key0, path0)")
    case True
    from Cons.prems(2) kp have "key0 \<notin> fst ` set rest" by simp
    with inject_extras_frame [OF h]
    have "map_of (dicts st1 mk) key0 = map_of (dicts ?st0 mk) key0" by blast
    then have "map_of (dicts st1 mk) key0 = Some v0" by (simp add: update_conv')
    with True g r0 eq show ?thesis by auto
  next
    case False
    with Cons.prems(3) kp have mem: "(key, path) \<in> set rest" by auto
    from Cons.prems(2) have dist: "distinct (map fst rest)" by simp
    from Cons.IH [OF h [unfolded eq(1)] dist mem]
    obtain v evs' where g0: "get_nested_attr ?st0 self path = (Inr v, evs')"
      and m: "map_of (dicts st1 mk) key = Some v" by blast
    have e: "get_nested_attr ?st0 self path = get_nested_attr st self path"
      by (rule get_nested_attr_attrs) simp
    from g0 have "get_nested_attr st self path = (Inr v, evs')"
      unfolding e .
    with m show ?thesis
      unfolding eq(2) by blast
  qed
qed

lemma inject_extras_error:
  "inject_extras self mk extras st = (Inl e, st', evs) \<Longrightarrow> \<exists>n. e = AttributeError n"
proof (induction extras arbitrary: st evs)
  case Nil
  then show ?case by simp
next
  case (Cons kp rest)
  obtain key0 path0 where kp: "kp = (key0, path0)" by (cases kp)
  obtain r0 evs0 where g: "get_nested_attr st self path0 = (r0, evs0)"
    by (cases "get_nested_attr st self path0")
  show ?case
  proof (cases r0)
    case (Inl e0)
    with Cons.prems kp g have "e = e0" by simp
    with get_nested_attr_error g Inl show ?thesis by blast
  next
    case (Inr v)
    obtain r1 st1 evs1 where
      h: "inject_extras self mk rest (dict_setitem mk key0 v st) = (r1, st1, evs1)"
      by (cases "inject_extras self mk rest (dict_setitem mk key0 v st)")
    with Cons.prems kp g Inr have "r1 = Inl e" "st1 = st'" by simp_all
    with Cons.IH h show ?thesis by blast
  qed
qed

text \<open>
  The assembly in one piece: \<^verbatim>\<open>method_args\<close> and \<^verbatim>\<open>method_kwargs\<close> get the next two
  addresses, and only they are written to.
\<close>

lemma assemble_arguments_unfold:
  "assemble_arguments self method args kwargs st =
     (let ma = next_addr st;
          mk = Suc (next_addr st);
          st4 = copy_kwargs mk kwargs (copy_args ma args
                  (st\<lparr>lists := (lists st)(ma := []), dicts := (dicts st)(mk := []),
                      next_addr := Suc mk\<rparr>))
      in if Method_kwargs method \<noteq> [] then
           (case inject_extras self mk (Method_kwargs method) st4 of
              (r5, st5, evs5) \<Rightarrow>
                (case r5 of Inl e \<Rightarrow> Inl e | Inr u \<Rightarrow> Inr (ma, mk), st5, evs5))
         else (Inr (ma, mk), st4, []))"
  by (simp add: assemble_arguments_def new_list_def new_dict_def Let_def
        split: prod.splits sum.splits)

lemma assemble_arguments_result:
  assumes "assemble_arguments self method args kwargs st = (r, st1, evs)"
  shows "attrs st1 = attrs st"
    and "d < next_addr st \<Longrightarrow> dicts st1 d = dicts st d"
    and "d < next_addr st \<Longrightarrow> lists st1 d = lists st d"
    and "\<forall>e \<in> set evs. is_GetAttr e"
    and "r = Inr (ma, mk) \<Longrightarrow> ma = next_addr st \<and> mk = Suc (next_addr st)"
proof -
  let ?ma = "next_addr st"
  let ?mk = "Suc (next_addr st)"
  let ?st4 = "copy_kwargs ?mk kwargs (copy_args ?ma args
                (st\<lparr>lists := (lists st)(?ma := []), dicts := (dicts st)(?mk := []),
                    next_addr := Suc ?mk\<rparr>))"
  obtain r5 st5 evs5 where
    h: "inject_extras self ?mk (Method_kwargs method) ?st4 = (r5, st5, evs5)"
    by (cases "inject_extras self ?mk (Method_kwargs method) ?st4")
  note fr = inject_extras_frame [OF h]
  have all: "attrs st1 = attrs st
      \<and> (\<forall>d. d < next_addr st \<longrightarrow> dicts st1 d = dicts st d \<and> lists st1 d = lists st d)
      \<and> (\<forall>e \<in> set evs. is_GetAttr e)
      \<and> (\<forall>ma mk. r = Inr (ma, mk) \<longrightarrow> ma = next_addr st \<and> mk = Suc (next_addr st))"
  proof (cases "Method_kwargs method = []")
    case True
    with assms have eq: "r = Inr (?ma, ?mk)" "st1 = ?st4" "evs = []"
      by (auto simp: assemble_arguments_unfold Let_def)
    show ?thesis unfolding eq by simp
  next
    case False
    with assms h
    have eq: "r = (case r5 of Inl e \<Rightarrow> Inl e | Inr u \<Rightarrow> Inr (?ma, ?mk))" "st1 = st5"
      "evs = evs5"
      by (auto simp: assemble_arguments_unfold Let_def)
    from fr show ?thesis unfolding eq by (simp split: sum.splits)
  qed
  from all show "attrs st1 = attrs st" by simp
  from all show "d < next_addr st \<Longrightarrow> dicts st1 d = dicts st d" by simp
  from all show "d < next_addr st \<Longrightarrow> lists st1 d = lists st d" by simp
  from all show "\<forall>e \<in> set evs. is_GetAttr e" by simp
  from all show "r = Inr (ma, mk) \<Longrightarrow> ma = next_addr st \<and> mk = Suc (next_addr st)" by simp
qed

lemma assemble_arguments_binds:
  assumes "assemble_arguments self method args kwargs st = (Inr (ma, mk), st1, evs)"
    and "distinct (map fst (Method_kwargs method))"
    and "(key, path) \<in> set (Method_kwargs method)"
  shows "\<exists>v evs'. get_nested_attr st self path = (Inr v, evs')
                  \<and> map_of (dicts st1 mk) key = Some v"
proof -
  let ?ma = "next_addr st"
  let ?mk = "Suc (next_addr st)"
  let ?st4 = "copy_kwargs ?mk kwargs (copy_args ?ma args
                (st\<lparr>lists := (lists st)(?ma := []), dicts := (dicts st)(?mk := []),
                    next_addr := Suc ?mk\<rparr>))"
  have st4: "attrs ?st4 = attrs st"
    by simp
  from assms(3) have ne: "Method_kwargs method \<noteq> []" by auto
  obtain r5 st5 evs5 where
    h: "inject_extras self ?mk (Method_kwargs method) ?st4 = (r5, st5, evs5)"
    by (cases "inject_extras self ?mk (Method_kwargs method) ?st4")
  from assms(1) ne h have eq: "r5 = Inr ()" "st1 = st5" "mk = ?mk"
    by (auto simp: assemble_arguments_unfold Let_def split: sum.splits)
  from inject_extras_binds [OF h [unfolded eq(1)] assms(2) assms(3)]
  obtain v evs' where g: "get_nested_attr ?st4 self path = (Inr v, evs')"
    and m: "map_of (dicts st5 ?mk) key = Some v" by blast
  have e: "get_nested_attr ?st4 self path = get_nested_attr st self path"
    by (rule get_nested_attr_attrs) (rule st4)
  from g have g': "get_nested_attr st self path = (Inr v, evs')"
    unfolding e .
  from g' m show ?thesis
    unfolding eq(2,3) by blast
qed

lemma assemble_arguments_error:
  assumes "assemble_arguments self method args kwargs st = (Inl e, st1, evs)"
  shows "\<exists>n. e = AttributeError n"
proof -
  let ?ma = "next_addr st"
  let ?mk = "Suc (next_addr st)"
  let ?st4 = "copy_kwargs ?mk kwargs (copy_args ?ma args
                (st\<lparr>lists := (lists st)(?ma := []), dicts := (dicts st)(?mk := []),
                    next_addr := Suc ?mk\<rparr>))"
  obtain r5 st5 evs5 where
    h: "inject_extras self ?mk (Method_kwargs method) ?st4 = (r5, st5, evs5)"
    by (cases "inject_extras self ?mk (Method_kwargs method) ?st4")
  from assms h have "r5 = Inl e"
    by (auto simp: assemble_arguments_unfold Let_def split: if_splits sum.splits)
  with h inject_extras_error show ?thesis by blast
qed

section \<open>The call and its result\<close>

text \<open>
  C2. For every call of a declared method that returns a value \<open>v\<close> for which
  \<^verbatim>\<open>MethodCallArgument.check\<close> is false, the responder raises \<open>MethodCallError\<close> with the
  message \<^verbatim>\<open>Non-serializable result\<close>: the outcome is the exception, so there is no
  response that holds \<open>v\<close>, and the events are those of the lookup, of the assembly and
  of the call.
\<close>

theorem non_serializable_result:
  assumes "map_of (methods_by_name self) name = Some method"
    and "py_getattr st (object (factory self)) name = (Inr method_func, evs1)"
    and "assemble_arguments (self_value self) method args kwargs st =
           (Inr (method_args, method_kwargs), st1, evs2)"
    and "py_call code method_func (lists st1 method_args) (dicts st1 method_kwargs) st1 =
           (Inr v, st2, evs3)"
    and "\<not> check dumps_table v"
  shows "call_object_method dumps_table code self name args kwargs st =
           (Inl (MethodCallError ''Non-serializable result''), st2, evs1 @ evs2 @ evs3)"
  using assms by (simp add: call_object_method_def)

text \<open>On the example: \<^verbatim>\<open>bad()\<close> returns an instance, which the table does not hold.\<close>

theorem non_serializable_result_witness:
  "map_of (methods_by_name ex_protocol) ''bad'' =
     Some \<lparr>Method_name = ''bad'', Method_kwargs = []\<rparr>
   \<and> py_getattr ex_store (object (factory ex_protocol)) ''bad'' =
       (Inr (PFun ''bad''), [GetAttr (PObj 3) ''bad''])
   \<and> assemble_arguments (self_value ex_protocol) \<lparr>Method_name = ''bad'', Method_kwargs = []\<rparr>
        None None ex_store =
       (Inr (10, 11),
        ex_store\<lparr>lists := (lists ex_store)(10 := []), dicts := (dicts ex_store)(11 := []),
                 next_addr := 12\<rparr>, [])
   \<and> \<not> check bpickle_dumps_table (PObj 7)
   \<and> call_object_method bpickle_dumps_table ex_code ex_protocol ''bad'' None None ex_store =
       (Inl (MethodCallError ''Non-serializable result''),
        ex_store\<lparr>lists := (lists ex_store)(10 := []), dicts := (dicts ex_store)(11 := []),
                 next_addr := 12\<rparr>,
        [GetAttr (PObj 3) ''bad'', Invoke (PFun ''bad'') [] []])"
proof -
  let ?st1 = "ex_store\<lparr>lists := (lists ex_store)(10 := []),
                        dicts := (dicts ex_store)(11 := []), next_addr := 12\<rparr>"
  have h1: "map_of (methods_by_name ex_protocol) ''bad'' =
              Some \<lparr>Method_name = ''bad'', Method_kwargs = []\<rparr>"
    by (simp add: ex_whitelist)
  have h2: "py_getattr ex_store (object (factory ex_protocol)) ''bad'' =
              (Inr (PFun ''bad''), [GetAttr (PObj 3) ''bad''])"
    by (simp add: ex_whitelist ex_getattr)
  have h3: "assemble_arguments (self_value ex_protocol)
              \<lparr>Method_name = ''bad'', Method_kwargs = []\<rparr> None None ex_store =
              (Inr (10, 11), ?st1, [])"
    by (simp add: assemble_arguments_def copy_args_def copy_kwargs_def new_list_def
          new_dict_def ex_store_def)
  have h4: "py_call ex_code (PFun ''bad'') (lists ?st1 10) (dicts ?st1 11) ?st1 =
              (Inr (PObj 7), ?st1, [Invoke (PFun ''bad'') [] []])"
    by (simp add: py_call_def ex_code_def)
  have h5: "\<not> check bpickle_dumps_table (PObj 7)"
    by (simp add: check_def bpickle_dumps_table_def)
  show ?thesis
    using h1 h2 h3 h5 non_serializable_result [OF h1 h2 h3 h4 h5]
    by simp
qed

text \<open>Every response holds one field, \<^verbatim>\<open>result\<close>, and its value passed the check.\<close>

lemma response_is_checked:
  assumes "call_object_method dumps_table code self name args kwargs st = (Inr response, st', evs)"
  shows "\<exists>r. response = [(''result'', r)] \<and> check dumps_table r"
  using assms
  by (auto simp: call_object_method_def split: option.splits prod.splits sum.splits if_splits)

text \<open>
  C4. For every declared method whose call on the assembled arguments returns a value
  \<open>r\<close> that passes the check, the responder returns the response \<^verbatim>\<open>{"result": r}\<close>.
\<close>

theorem encodable_result:
  assumes "map_of (methods_by_name self) name = Some method"
    and "py_getattr st (object (factory self)) name = (Inr method_func, evs1)"
    and "assemble_arguments (self_value self) method args kwargs st =
           (Inr (method_args, method_kwargs), st1, evs2)"
    and "py_call code method_func (lists st1 method_args) (dicts st1 method_kwargs) st1 =
           (Inr r, st2, evs3)"
    and "check dumps_table r"
  shows "call_object_method dumps_table code self name args kwargs st =
           (Inr [(''result'', r)], st2, evs1 @ evs2 @ evs3)"
  using assms by (simp add: call_object_method_def)

text \<open>On the example: \<^verbatim>\<open>add\<close> is declared, and the command \<^verbatim>\<open>add(2, 3)\<close> is answered by 5.\<close>

theorem encodable_result_witness:
  "map_of (methods_by_name ex_protocol) ''add'' =
     Some \<lparr>Method_name = ''add'', Method_kwargs = []\<rparr>
   \<and> py_getattr ex_store (object (factory ex_protocol)) ''add'' =
       (Inr (PFun ''add''), [GetAttr (PObj 3) ''add''])
   \<and> check bpickle_dumps_table (PInt 5)
   \<and> call_object_method bpickle_dumps_table ex_code ex_protocol ''add''
        (Some [PInt 2, PInt 3]) None ex_store =
       (Inr [(''result'', PInt 5)],
        ex_store\<lparr>lists := (lists ex_store)(10 := [PInt 2, PInt 3]),
                 dicts := (dicts ex_store)(11 := []), next_addr := 12\<rparr>,
        [GetAttr (PObj 3) ''add'', Invoke (PFun ''add'') [PInt 2, PInt 3] []])"
proof -
  let ?st1 = "ex_store\<lparr>lists := (lists ex_store)(10 := [PInt 2, PInt 3]),
                        dicts := (dicts ex_store)(11 := []), next_addr := 12\<rparr>"
  have h1: "map_of (methods_by_name ex_protocol) ''add'' =
              Some \<lparr>Method_name = ''add'', Method_kwargs = []\<rparr>"
    by (simp add: ex_whitelist)
  have h2: "py_getattr ex_store (object (factory ex_protocol)) ''add'' =
              (Inr (PFun ''add''), [GetAttr (PObj 3) ''add''])"
    by (simp add: ex_whitelist ex_getattr)
  have h3: "assemble_arguments (self_value ex_protocol)
              \<lparr>Method_name = ''add'', Method_kwargs = []\<rparr> (Some [PInt 2, PInt 3]) None
              ex_store = (Inr (10, 11), ?st1, [])"
    by (simp add: assemble_arguments_def copy_args_def copy_kwargs_def new_list_def
          new_dict_def list_extend_def ex_store_def)
  have h4: "py_call ex_code (PFun ''add'') (lists ?st1 10) (dicts ?st1 11) ?st1 =
              (Inr (PInt 5), ?st1, [Invoke (PFun ''add'') [PInt 2, PInt 3] []])"
    by (simp add: py_call_def ex_code_def)
  have h5: "check bpickle_dumps_table (PInt 5)"
    by (simp add: check_def bpickle_dumps_table_def)
  show ?thesis
    using h1 h2 h5 encodable_result [OF h1 h2 h3 h4 h5]
    by simp
qed

text \<open>
  C7. For every exception that the body of the called method raises, the responder
  raises that same exception: it neither catches it nor turns it into a
  \<open>MethodCallError\<close>. The store is the one the body left, and the call is recorded.
\<close>

theorem method_exception_propagates:
  assumes "map_of (methods_by_name self) name = Some method"
    and "py_getattr st (object (factory self)) name = (Inr (PFun fid), evs1)"
    and "assemble_arguments (self_value self) method args kwargs st =
           (Inr (method_args, method_kwargs), st1, evs2)"
    and "code fid (lists st1 method_args) (dicts st1 method_kwargs) st1 = (Inl e, st2)"
  shows "call_object_method dumps_table code self name args kwargs st =
           (Inl e, st2,
            evs1 @ evs2 @ [Invoke (PFun fid) (lists st1 method_args) (dicts st1 method_kwargs)])"
  using assms by (simp add: call_object_method_def py_call_def)

text \<open>On the example: \<^verbatim>\<open>boom()\<close> raises, and the command fails with what it raised.\<close>

theorem method_exception_propagates_witness:
  "map_of (methods_by_name ex_protocol) ''boom'' =
     Some \<lparr>Method_name = ''boom'', Method_kwargs = []\<rparr>
   \<and> py_getattr ex_store (object (factory ex_protocol)) ''boom'' =
       (Inr (PFun ''boom''), [GetAttr (PObj 3) ''boom''])
   \<and> call_object_method bpickle_dumps_table ex_code ex_protocol ''boom'' None (Some 5)
        ex_store =
       (Inl (Failure ''boom''),
        ex_store\<lparr>lists := (lists ex_store)(10 := []),
                 dicts := (dicts ex_store)(11 := [(''caller_id'', PInt 99)]),
                 next_addr := 12\<rparr>,
        [GetAttr (PObj 3) ''boom'', Invoke (PFun ''boom'') [] [(''caller_id'', PInt 99)]])"
proof -
  let ?st1 = "ex_store\<lparr>lists := (lists ex_store)(10 := []),
                        dicts := (dicts ex_store)(11 := [(''caller_id'', PInt 99)]),
                        next_addr := 12\<rparr>"
  have h1: "map_of (methods_by_name ex_protocol) ''boom'' =
              Some \<lparr>Method_name = ''boom'', Method_kwargs = []\<rparr>"
    by (simp add: ex_whitelist)
  have h2: "py_getattr ex_store (object (factory ex_protocol)) ''boom'' =
              (Inr (PFun ''boom''), [GetAttr (PObj 3) ''boom''])"
    by (simp add: ex_whitelist ex_getattr)
  have h3: "assemble_arguments (self_value ex_protocol)
              \<lparr>Method_name = ''boom'', Method_kwargs = []\<rparr> None (Some 5) ex_store =
              (Inr (10, 11), ?st1, [])"
    by (simp add: assemble_arguments_def copy_args_def copy_kwargs_def new_list_def
          new_dict_def dict_setitem_def ex_store_def)
  have h4: "ex_code ''boom'' (lists ?st1 10) (dicts ?st1 11) ?st1 = (Inl (Failure ''boom''), ?st1)"
    by (simp add: ex_code_def)
  show ?thesis
    using h1 h2
      method_exception_propagates
        [where code = ex_code and dumps_table = bpickle_dumps_table, OF h1 h2 h3 h4]
    by simp
qed

text \<open>
  Where a \<open>MethodCallError\<close> comes from: the name is not in the table, the result is not
  serializable, or the method body raised it itself.
\<close>

lemma method_call_error_origin:
  assumes "call_object_method dumps_table code self name args kwargs st =
             (Inl (MethodCallError msg), st', evs)"
  shows "(map_of (methods_by_name self) name = None \<and> msg = forbidden_message name)
         \<or> msg = ''Non-serializable result''
         \<or> (\<exists>fid a k s. fst (code fid a k s) = Inl (MethodCallError msg))"
proof (cases "map_of (methods_by_name self) name")
  case None
  with assms show ?thesis by (simp add: call_object_method_def)
next
  case (Some m)
  obtain r1 evs1 where g: "py_getattr st (object (factory self)) name = (r1, evs1)"
    by (cases "py_getattr st (object (factory self)) name")
  obtain r2 st1 evs2 where
    h: "assemble_arguments (self_value self) m args kwargs st = (r2, st1, evs2)"
    by (cases "assemble_arguments (self_value self) m args kwargs st")
  show ?thesis
  proof (cases r1)
    case (Inl e)
    with assms Some g show ?thesis
      by (auto simp: call_object_method_def py_getattr_def split: option.splits)
  next
    case r1: (Inr method_func)
    show ?thesis
    proof (cases r2)
      case (Inl e)
      with assms Some g r1 h have "e = MethodCallError msg"
        by (simp add: call_object_method_def)
      with assemble_arguments_error h Inl show ?thesis by blast
    next
      case (Inr p)
      obtain ma mk where p: "p = (ma, mk)" by (cases p)
      obtain r3 st2 evs3 where
        c: "py_call code method_func (lists st1 ma) (dicts st1 mk) st1 = (r3, st2, evs3)"
        by (cases "py_call code method_func (lists st1 ma) (dicts st1 mk) st1")
      show ?thesis
      proof (cases r3)
        case (Inl e)
        with assms Some g r1 h Inr p c have e: "e = MethodCallError msg"
          by (simp add: call_object_method_def)
        from c Inl e obtain fid where "method_func = PFun fid"
          by (cases method_func) (auto simp: py_call_def)
        with c Inl e
        have "fst (code fid (lists st1 ma) (dicts st1 mk) st1) = Inl (MethodCallError msg)"
          by (auto simp: py_call_def split: prod.splits)
        then show ?thesis by blast
      next
        case r3: (Inr result)
        with assms Some g r1 h Inr p c show ?thesis
          by (auto simp: call_object_method_def split: if_splits)
      qed
    qed
  qed
qed

text \<open>
  C9. The responder does not tell an absent \<^verbatim>\<open>args\<close> from an empty one, nor an absent
  \<^verbatim>\<open>kwargs\<close> from an empty dictionary: for every name, the outcome, the store and the
  events are the same.
\<close>

theorem absent_same_as_empty:
  "call_object_method dumps_table code self name None kwargs st =
     call_object_method dumps_table code self name (Some []) kwargs st
   \<and> (dicts st d = [] \<longrightarrow>
        call_object_method dumps_table code self name args None st =
          call_object_method dumps_table code self name args (Some d) st)"
proof -
  have a: "assemble_arguments ob m None kwargs st =
             assemble_arguments ob m (Some []) kwargs st" for ob m
    by (simp add: assemble_arguments_def copy_args_def)
  have b: "dicts st d = [] \<Longrightarrow>
             assemble_arguments ob m args None st =
               assemble_arguments ob m args (Some d) st" for ob m
    by (cases args)
       (simp_all add: assemble_arguments_def copy_args_def copy_kwargs_def new_list_def
          new_dict_def list_extend_def)
  show ?thesis
  proof (cases "map_of (methods_by_name self) name")
    case None
    then show ?thesis by (simp add: call_object_method_def)
  next
    case (Some m)
    obtain r evs1 where g: "py_getattr st (object (factory self)) name = (r, evs1)"
      by (cases "py_getattr st (object (factory self)) name")
    show ?thesis
      by (cases r) (simp_all add: call_object_method_def Some g a b)
  qed
qed

text \<open>On the example: the dictionary 6 is empty.\<close>

theorem absent_same_as_empty_witness:
  "dicts ex_store 6 = []
   \<and> call_object_method bpickle_dumps_table ex_code ex_protocol ''add''
        (Some [PInt 2, PInt 3]) None ex_store =
       call_object_method bpickle_dumps_table ex_code ex_protocol ''add''
        (Some [PInt 2, PInt 3]) (Some 6) ex_store
   \<and> call_object_method bpickle_dumps_table ex_code ex_protocol ''bad'' None None ex_store =
       call_object_method bpickle_dumps_table ex_code ex_protocol ''bad'' (Some []) None ex_store"
proof -
  have h: "dicts ex_store 6 = []"
    by (simp add: ex_store_def)
  show ?thesis
    using h
      absent_same_as_empty [of bpickle_dumps_table ex_code ex_protocol "''add''" None
        ex_store 6 "Some [PInt 2, PInt 3]"]
      absent_same_as_empty [of bpickle_dumps_table ex_code ex_protocol "''bad''" None
        ex_store 6 None]
    by simp
qed

section \<open>The extra arguments\<close>

text \<open>The only call that the responder makes is the call of the method, on what was assembled.\<close>

lemma call_object_method_invokes:
  assumes "call_object_method dumps_table code self name args kwargs st = (r, st', evs)"
    and "Invoke f a k \<in> set evs"
  shows "\<exists>method ma mk st1 evs2.
           map_of (methods_by_name self) name = Some method
           \<and> assemble_arguments (self_value self) method args kwargs st =
               (Inr (ma, mk), st1, evs2)
           \<and> a = lists st1 ma \<and> k = dicts st1 mk"
proof (cases "map_of (methods_by_name self) name")
  case None
  with assms show ?thesis by (simp add: call_object_method_def)
next
  case (Some m)
  obtain r1 evs1 where g: "py_getattr st (object (factory self)) name = (r1, evs1)"
    by (cases "py_getattr st (object (factory self)) name")
  then have ev1: "evs1 = [GetAttr (object (factory self)) name]"
    by (auto simp: py_getattr_def)
  obtain r2 st1 evs2 where
    h: "assemble_arguments (self_value self) m args kwargs st = (r2, st1, evs2)"
    by (cases "assemble_arguments (self_value self) m args kwargs st")
  from assemble_arguments_result(4) [OF h] have ev2: "Invoke f a k \<notin> set evs2"
    by auto
  show ?thesis
  proof (cases r1)
    case (Inl e)
    with assms Some g ev1 show ?thesis by (auto simp: call_object_method_def)
  next
    case r1: (Inr method_func)
    show ?thesis
    proof (cases r2)
      case (Inl e)
      with assms Some g ev1 r1 h ev2 show ?thesis
        by (auto simp: call_object_method_def)
    next
      case (Inr p)
      obtain ma mk where p: "p = (ma, mk)" by (cases p)
      obtain r3 st2 evs3 where
        c: "py_call code method_func (lists st1 ma) (dicts st1 mk) st1 = (r3, st2, evs3)"
        by (cases "py_call code method_func (lists st1 ma) (dicts st1 mk) st1")
      then have ev3: "evs3 = [] \<or> evs3 = [Invoke method_func (lists st1 ma) (dicts st1 mk)]"
        by (auto simp: py_call_def split: pyval.splits prod.splits)
      from assms(1) Some g r1 h Inr p c have "evs = evs1 @ evs2 @ evs3"
        by (auto simp: call_object_method_def split: sum.splits if_splits)
      with assms(2) ev1 ev2 ev3 have "a = lists st1 ma \<and> k = dicts st1 mk"
        by auto
      with Some h Inr p show ?thesis by simp
    qed
  qed
qed

lemma ex_whoami_call:
  "call_object_method bpickle_dumps_table ex_code ex_protocol ''whoami'' None (Some 5) ex_store =
     (Inr [(''result'', PBool True)],
      ex_store\<lparr>lists := (lists ex_store)(10 := []),
               dicts := (dicts ex_store)(11 := [(''caller_id'', PObj 2), (''target'', PObj 3)]),
               next_addr := 12\<rparr>,
      [GetAttr (PObj 3) ''whoami'', GetAttr (PObj 2) ''factory'', GetAttr (PObj 4) ''object'',
       Invoke (PFun ''whoami'') [] [(''caller_id'', PObj 2), (''target'', PObj 3)]])"
  by (simp add: call_object_method_def ex_whitelist ex_getattr assemble_arguments_def
        copy_args_def copy_kwargs_def new_list_def new_dict_def dict_setitem_def
        get_nested_attr_def str_split_def py_getattr_def py_call_def check_def
        ex_store_def ex_attrs_def ex_code_def bpickle_dumps_table_def)

text \<open>
  C3. For every declared method and every pair of a key and a path among its extra
  arguments (the keys of a dictionary are distinct), the keyword arguments that the
  method is called with bind the key to the value that the path resolves to against the
  protocol. The store at the start of the call stands for the time of the call: until
  the method is called the responder changes no attribute. The binding does not depend
  on the keyword arguments of the command, so a value that the caller gives under the
  same key is replaced.
\<close>

theorem extras_injected:
  assumes "map_of (methods_by_name self) name = Some method"
    and "distinct (map fst (Method_kwargs method))"
    and "(key, path) \<in> set (Method_kwargs method)"
    and "call_object_method dumps_table code self name args kwargs st = (r, st', evs)"
    and "Invoke f a k \<in> set evs"
  shows "\<exists>v evs'. get_nested_attr st (self_value self) path = (Inr v, evs')
                  \<and> map_of k key = Some v"
proof -
  from call_object_method_invokes [OF assms(4) assms(5)] assms(1)
  obtain ma mk st1 evs2 where
    h: "assemble_arguments (self_value self) method args kwargs st = (Inr (ma, mk), st1, evs2)"
    and k: "k = dicts st1 mk" by auto
  from assemble_arguments_binds [OF h assms(2) assms(3)] k show ?thesis by simp
qed

text \<open>
  On the example: \<^verbatim>\<open>whoami\<close> is declared with \<^verbatim>\<open>caller_id\<close> bound to the empty path and
  \<^verbatim>\<open>target\<close> to \<^verbatim>\<open>factory.object\<close>. The command gives \<^verbatim>\<open>caller_id\<close> as 99; the method
  is called with the protocol instead, and answers that its caller is the protocol.
\<close>

theorem extras_injected_witness:
  "map_of (methods_by_name ex_protocol) ''whoami'' =
     Some \<lparr>Method_name = ''whoami'',
           Method_kwargs = [(''caller_id'', ''''), (''target'', ''factory.object'')]\<rparr>
   \<and> dicts ex_store 5 = [(''caller_id'', PInt 99)]
   \<and> fst (call_object_method bpickle_dumps_table ex_code ex_protocol ''whoami'' None
             (Some 5) ex_store) = Inr [(''result'', PBool True)]
   \<and> snd (snd (call_object_method bpickle_dumps_table ex_code ex_protocol ''whoami'' None
                  (Some 5) ex_store)) =
       [GetAttr (PObj 3) ''whoami'', GetAttr (PObj 2) ''factory'', GetAttr (PObj 4) ''object'',
        Invoke (PFun ''whoami'') [] [(''caller_id'', PObj 2), (''target'', PObj 3)]]
   \<and> (\<exists>evs'. get_nested_attr ex_store (self_value ex_protocol) ''factory.object'' =
                 (Inr (PObj 3), evs'))
   \<and> (\<exists>evs'. get_nested_attr ex_store (self_value ex_protocol) '''' = (Inr (PObj 2), evs'))"
proof -
  let ?whoami = "\<lparr>Method_name = ''whoami'',
                  Method_kwargs = [(''caller_id'', ''''), (''target'', ''factory.object'')]\<rparr>"
  let ?k = "[(''caller_id'', PObj 2), (''target'', PObj 3)]"
  have h1: "map_of (methods_by_name ex_protocol) ''whoami'' = Some ?whoami"
    by (simp add: ex_whitelist)
  have h2: "distinct (map fst (Method_kwargs ?whoami))"
    by simp
  have h3: "(''target'', ''factory.object'') \<in> set (Method_kwargs ?whoami)"
    by simp
  have h3': "(''caller_id'', '''') \<in> set (Method_kwargs ?whoami)"
    by simp
  have h5: "Invoke (PFun ''whoami'') [] ?k \<in>
              set [GetAttr (PObj 3) ''whoami'', GetAttr (PObj 2) ''factory'',
                   GetAttr (PObj 4) ''object'', Invoke (PFun ''whoami'') [] ?k]"
    by simp
  have h6: "dicts ex_store 5 = [(''caller_id'', PInt 99)]"
    by (simp add: ex_store_def)
  show ?thesis
    using h1 h6 extras_injected [OF h1 h2 h3 ex_whoami_call h5]
      extras_injected [OF h1 h2 h3' ex_whoami_call h5]
    by (simp add: ex_whoami_call)
qed

section \<open>The argument collections\<close>

text \<open>What the call of a method and the whole responder leave alone.\<close>

lemma py_call_frame:
  assumes "\<forall>fid a k s. dicts (snd (code fid a k s)) d = dicts s d"
    and "py_call code f a k s = (r, s', evs)"
  shows "dicts s' d = dicts s d"
proof (cases f)
  case (PFun fid)
  obtain r0 s0 where c: "code fid a k s = (r0, s0)" by (cases "code fid a k s")
  from assms(1) have "dicts (snd (code fid a k s)) d = dicts s d" by blast
  with c assms(2) PFun show ?thesis by (simp add: py_call_def)
qed (use assms(2) in \<open>simp_all add: py_call_def\<close>)

lemma call_object_method_frame:
  assumes "\<forall>fid a k s. dicts (snd (code fid a k s)) d = dicts s d"
    and "d < next_addr st"
    and "call_object_method dumps_table code self name args kwargs st = (r, st', evs)"
  shows "dicts st' d = dicts st d"
proof (cases "map_of (methods_by_name self) name")
  case None
  with assms(3) show ?thesis by (simp add: call_object_method_def)
next
  case (Some m)
  obtain r1 evs1 where g: "py_getattr st (object (factory self)) name = (r1, evs1)"
    by (cases "py_getattr st (object (factory self)) name")
  obtain r2 st1 evs2 where
    h: "assemble_arguments (self_value self) m args kwargs st = (r2, st1, evs2)"
    by (cases "assemble_arguments (self_value self) m args kwargs st")
  have st1: "dicts st1 d = dicts st d"
    by (rule assemble_arguments_result(2) [OF h assms(2)])
  show ?thesis
  proof (cases r1)
    case (Inl e)
    with assms(3) Some g show ?thesis by (simp add: call_object_method_def)
  next
    case r1: (Inr method_func)
    show ?thesis
    proof (cases r2)
      case (Inl e)
      with assms(3) Some g r1 h st1 show ?thesis by (simp add: call_object_method_def)
    next
      case (Inr p)
      obtain ma mk where p: "p = (ma, mk)" by (cases p)
      obtain r3 st2 evs3 where
        c: "py_call code method_func (lists st1 ma) (dicts st1 mk) st1 = (r3, st2, evs3)"
        by (cases "py_call code method_func (lists st1 ma) (dicts st1 mk) st1")
      from assms(3) Some g r1 h Inr p c have "st' = st2"
        by (auto simp: call_object_method_def split: sum.splits if_splits)
      with py_call_frame [OF assms(1) c] st1 show ?thesis by simp
    qed
  qed
qed

text \<open>
  C8. Neither side writes to the dictionary of keyword arguments it is given, nor hands
  it on. The responder: for a command whose \<^verbatim>\<open>kwargs\<close> is an existing dictionary \<open>d\<close>,
  the dictionary that the method is called with is a new object, and \<open>d\<close> holds after the
  assembly what it held before, extra arguments or not; it still does after the whole
  call when the method bodies, which hold no reference to \<open>d\<close>, do not write to it. The
  proxy: the sender hands the positional arguments and a new dictionary with the
  contents of \<open>d\<close> to the connection, and a later assignment to \<open>d\<close> changes nothing in
  the dictionary that was sent.
\<close>

theorem argument_collections_untouched:
  "(d < next_addr st \<longrightarrow>
      (\<forall>m r st1 evs.
         assemble_arguments (self_value self) m args (Some d) st = (r, st1, evs) \<longrightarrow>
         dicts st1 d = dicts st d
         \<and> (\<forall>ma mk. r = Inr (ma, mk) \<longrightarrow> mk \<noteq> d \<and> next_addr st \<le> mk)))
   \<and> (d < next_addr st \<and> (\<forall>fid a k s. dicts (snd (code fid a k s)) d = dicts s d) \<longrightarrow>
        dicts (fst (snd (call_object_method dumps_table code self name args (Some d) st))) d =
          dicts st d)
   \<and> (d < next_addr st \<longrightarrow>
        (\<exists>dfr st' d'.
           send_method_call proxy pname pargs d st =
             (dfr, st', [CallRemote (RemoteObject_protocol proxy) pname pargs d'])
           \<and> d' \<noteq> d \<and> next_addr st \<le> d'
           \<and> dicts st' d' = dicts st d \<and> dicts st' d = dicts st d
           \<and> (\<forall>key v. dicts (dict_setitem d key v st') d' = dicts st d)))"
proof (intro conjI impI)
  assume a: "d < next_addr st"
  show "\<forall>m r st1 evs.
          assemble_arguments (self_value self) m args (Some d) st = (r, st1, evs) \<longrightarrow>
          dicts st1 d = dicts st d
          \<and> (\<forall>ma mk. r = Inr (ma, mk) \<longrightarrow> mk \<noteq> d \<and> next_addr st \<le> mk)"
  proof (intro allI impI conjI)
    fix m r st1 evs
    assume h: "assemble_arguments (self_value self) m args (Some d) st = (r, st1, evs)"
    show "dicts st1 d = dicts st d"
      by (rule assemble_arguments_result(2) [OF h a])
    fix ma mk
    assume r: "r = Inr (ma, mk)"
    from assemble_arguments_result(5) [OF h r] have mk: "mk = Suc (next_addr st)" by simp
    from mk a show "mk \<noteq> d" by simp
    from mk show "next_addr st \<le> mk" by simp
  qed
next
  assume a: "d < next_addr st \<and> (\<forall>fid a k s. dicts (snd (code fid a k s)) d = dicts s d)"
  obtain r st' evs where
    c: "call_object_method dumps_table code self name args (Some d) st = (r, st', evs)"
    by (cases "call_object_method dumps_table code self name args (Some d) st")
  from a call_object_method_frame [OF _ _ c, of d] have "dicts st' d = dicts st d"
    by blast
  with c show "dicts (fst (snd (call_object_method dumps_table code self name args (Some d)
                 st))) d = dicts st d"
    by simp
next
  assume "d < next_addr st"
  then show "\<exists>dfr st' d'.
           send_method_call proxy pname pargs d st =
             (dfr, st', [CallRemote (RemoteObject_protocol proxy) pname pargs d'])
           \<and> d' \<noteq> d \<and> next_addr st \<le> d'
           \<and> dicts st' d' = dicts st d \<and> dicts st' d = dicts st d
           \<and> (\<forall>key v. dicts (dict_setitem d key v st') d' = dicts st d)"
    by (simp add: send_method_call_def dict_copy_def callRemote_def dict_setitem_def)
qed

text \<open>
  On the example: the command \<^verbatim>\<open>whoami\<close> comes with the dictionary 5, which holds
  \<^verbatim>\<open>caller_id\<close> as 99 before and after the call, while the method was called with the
  dictionary 11; the proxy sends the dictionary 10, which keeps 99 when the caller
  sets \<^verbatim>\<open>caller_id\<close> to 0 in the dictionary 5 afterwards.
\<close>

theorem argument_collections_untouched_witness:
  "5 < next_addr ex_store
   \<and> (\<forall>fid a k s. dicts (snd (ex_code fid a k s)) 5 = dicts s 5)
   \<and> dicts ex_store 5 = [(''caller_id'', PInt 99)]
   \<and> dicts (fst (snd (call_object_method bpickle_dumps_table ex_code ex_protocol ''whoami''
                         None (Some 5) ex_store))) 5 = [(''caller_id'', PInt 99)]
   \<and> dicts (fst (snd (call_object_method bpickle_dumps_table ex_code ex_protocol ''whoami''
                         None (Some 5) ex_store))) 11 =
       [(''caller_id'', PObj 2), (''target'', PObj 3)]
   \<and> (\<exists>dfr st'.
         send_method_call (remote ex_protocol) ''add'' [PInt 2, PInt 3] 5 ex_store =
           (dfr, st', [CallRemote (PObj 2) ''add'' [PInt 2, PInt 3] 10])
         \<and> dicts st' 10 = [(''caller_id'', PInt 99)]
         \<and> dicts (dict_setitem 5 ''caller_id'' (PInt 0) st') 5 = [(''caller_id'', PInt 0)]
         \<and> dicts (dict_setitem 5 ''caller_id'' (PInt 0) st') 10 = [(''caller_id'', PInt 99)])"
proof -
  have h1: "5 < next_addr ex_store"
    by (simp add: ex_store_def)
  have h2: "\<forall>fid a k s. dicts (snd (ex_code fid a k s)) 5 = dicts s 5"
    by (simp add: ex_code_frame)
  have h3: "dicts ex_store 5 = [(''caller_id'', PInt 99)]"
    by (simp add: ex_store_def)
  have h4: "send_method_call (remote ex_protocol) ''add'' [PInt 2, PInt 3] 5 ex_store =
              (addCallback (\<lambda>response. dict_getitem response ''result'')
                 (Deferred (\<lambda>outcome. outcome)),
               ex_store\<lparr>dicts := (dicts ex_store)(10 := [(''caller_id'', PInt 99)]),
                        next_addr := 11\<rparr>,
               [CallRemote (PObj 2) ''add'' [PInt 2, PInt 3] 10])"
    by (simp add: send_method_call_def dict_copy_def callRemote_def ex_store_def
          ex_protocol_def MethodCallProtocol_init_def)
  note frame = argument_collections_untouched
        [where d = 5 and st = ex_store and code = ex_code
           and dumps_table = bpickle_dumps_table and self = ex_protocol
           and name = "''whoami''" and args = None and proxy = "remote ex_protocol"
           and pname = "''add''" and pargs = "[PInt 2, PInt 3]"]
  from frame h1 h2
  have h5: "dicts (fst (snd (call_object_method bpickle_dumps_table ex_code ex_protocol
                    ''whoami'' None (Some 5) ex_store))) 5 = dicts ex_store 5"
    by blast
  have h6: "dicts (fst (snd (call_object_method bpickle_dumps_table ex_code ex_protocol
                    ''whoami'' None (Some 5) ex_store))) 11 =
              [(''caller_id'', PObj 2), (''target'', PObj 3)]"
    by (simp add: ex_whoami_call)
  have h7: "\<exists>dfr st'.
         send_method_call (remote ex_protocol) ''add'' [PInt 2, PInt 3] 5 ex_store =
           (dfr, st', [CallRemote (PObj 2) ''add'' [PInt 2, PInt 3] 10])
         \<and> dicts st' 10 = [(''caller_id'', PInt 99)]
         \<and> dicts (dict_setitem 5 ''caller_id'' (PInt 0) st') 5 = [(''caller_id'', PInt 0)]
         \<and> dicts (dict_setitem 5 ''caller_id'' (PInt 0) st') 10 = [(''caller_id'', PInt 99)]"
    by (simp add: h4 dict_setitem_def h3)
  from h1 h2 h3 h5 h6 h7 show ?thesis
    by simp
qed

section \<open>The proxy\<close>

text \<open>
  C5. For every name that the ordinary lookup does not find on a proxy, the attribute
  is a callable. Called with any positional and keyword arguments, it hands exactly one
  command to the connection of its protocol, with that name, those positional
  arguments and a dictionary holding those keyword arguments, and it returns a Deferred
  that a response resolves to \<^verbatim>\<open>response["result"]\<close> and that a failure fails.
\<close>

theorem proxy_attribute_sends:
  assumes "name \<notin> set RemoteObject_reserved"
  shows "\<exists>send.
           RemoteObject_getattribute self name = Sender send
           \<and> (\<forall>args kwargs st. \<exists>dfr st' d'.
                 send args kwargs st =
                   (dfr, st', [CallRemote (RemoteObject_protocol self) name args d'])
                 \<and> dicts st' d' = dicts st kwargs
                 \<and> (\<forall>response. fire dfr (Inr response) = dict_getitem response ''result'')
                 \<and> (\<forall>response r. map_of response ''result'' = Some r \<longrightarrow>
                       fire dfr (Inr response) = Inr r)
                 \<and> (\<forall>e. fire dfr (Inl e) = Inl e))"
proof -
  from assms have ne: "name \<noteq> ''_protocol''" "name \<noteq> ''protocol''"
    by (auto simp: RemoteObject_reserved_def)
  with assms have g: "RemoteObject_getattribute self name = Sender (send_method_call self name)"
    by (simp add: RemoteObject_getattribute_def RemoteObject_getattr_hook_def
          create_method_call_sender_def)
  have "\<exists>dfr st' d'.
          send_method_call self name args kwargs st =
            (dfr, st', [CallRemote (RemoteObject_protocol self) name args d'])
          \<and> dicts st' d' = dicts st kwargs
          \<and> (\<forall>response. fire dfr (Inr response) = dict_getitem response ''result'')
          \<and> (\<forall>response r. map_of response ''result'' = Some r \<longrightarrow>
                fire dfr (Inr response) = Inr r)
          \<and> (\<forall>e. fire dfr (Inl e) = Inl e)" for args kwargs st
    by (simp add: send_method_call_def dict_copy_def callRemote_def dict_getitem_def)
  with g show ?thesis by blast
qed

text \<open>
  On the example: \<^verbatim>\<open>protocol\<close> is found by the ordinary lookup, \<^verbatim>\<open>add\<close> is not;
  \<^verbatim>\<open>remote.add(2, 3, caller_id=99)\<close> sends one command, and its Deferred resolves to 5
  on the response \<^verbatim>\<open>{"result": 5}\<close>.
\<close>

theorem proxy_attribute_sends_witness:
  "''add'' \<notin> set RemoteObject_reserved
   \<and> RemoteObject_getattribute (remote ex_protocol) ''protocol'' = Value (PObj 2)
   \<and> (\<exists>send dfr st'.
         RemoteObject_getattribute (remote ex_protocol) ''add'' = Sender send
         \<and> send [PInt 2, PInt 3] 5 ex_store =
             (dfr, st', [CallRemote (PObj 2) ''add'' [PInt 2, PInt 3] 10])
         \<and> dicts st' 10 = [(''caller_id'', PInt 99)]
         \<and> fire dfr (Inr [(''result'', PInt 5)]) = Inr (PInt 5)
         \<and> fire dfr (Inl (MethodCallError ''Non-serializable result'')) =
             Inl (MethodCallError ''Non-serializable result''))"
proof -
  have h: "''add'' \<notin> set RemoteObject_reserved"
    by (simp add: RemoteObject_reserved_def)
  have g: "RemoteObject_getattribute (remote ex_protocol) ''add'' =
             Sender (send_method_call (remote ex_protocol) ''add'')"
    by (simp add: RemoteObject_getattribute_def RemoteObject_getattr_hook_def
          create_method_call_sender_def RemoteObject_reserved_def)
  have p: "RemoteObject_getattribute (remote ex_protocol) ''protocol'' = Value (PObj 2)"
    by (simp add: RemoteObject_getattribute_def ex_protocol_def MethodCallProtocol_init_def)
  have s: "send_method_call (remote ex_protocol) ''add'' [PInt 2, PInt 3] 5 ex_store =
              (addCallback (\<lambda>response. dict_getitem response ''result'')
                 (Deferred (\<lambda>outcome. outcome)),
               ex_store\<lparr>dicts := (dicts ex_store)(10 := [(''caller_id'', PInt 99)]),
                        next_addr := 11\<rparr>,
               [CallRemote (PObj 2) ''add'' [PInt 2, PInt 3] 10])"
    by (simp add: send_method_call_def dict_copy_def callRemote_def ex_store_def
          ex_protocol_def MethodCallProtocol_init_def)
  show ?thesis
    using h p proxy_attribute_sends [OF h, of "remote ex_protocol"]
    by (simp add: g s dict_getitem_def)
qed

end
